theory Spec2Isabelle
  imports Complex_Main "HOL-Library.Log_Nat" "HOL-Library.Sublist" "HOL-Library.Word"
begin

section \<open>Resolution Suggest and Downscale: the Python node as HOL functions\<close>

text \<open>
  The node \<^verbatim>\<open>TuonoResolutionSuggestDownscale\<close> reads the height and width of an image
  tensor, picks a snap granularity from a profile string and a target size from a preset
  string, and returns the image, the new width, the new height and an info text.
  Every method of the class is a function below, under the method's name without the
  leading underscore. A Python exception is a value \<open>Inl e\<close> of the result type.
\<close>

datatype pyerror = OverflowError | ValueError | ZeroDivisionError | IndexError

definition and_then :: "pyerror + 'a \<Rightarrow> ('a \<Rightarrow> pyerror + 'b) \<Rightarrow> pyerror + 'b" where
  "and_then r f = (case r of Inl e \<Rightarrow> Inl e | Inr x \<Rightarrow> f x)"

subsection \<open>Python floats\<close>

text \<open>
  A Python \<^verbatim>\<open>float\<close> is an IEEE 754 binary64 number. A finite one is kept as the
  rational it denotes; \<open>Infinity True\<close> is the negative infinity. The two zeros are one
  value: the node computes no negative zero. Every arithmetic operation computes
  the exact rational result and rounds it to the nearest double, ties to the even
  mantissa: 53 bits of mantissa, the smallest quantum \<open>2 powi (- 1074)\<close> in the
  subnormal range, and infinity from \<open>2 ^ 1024 - 2 ^ 970\<close> on (half a quantum above the
  largest double).
\<close>

datatype pyfloat = Finite rat | Infinity bool | NaN

definition ilog2 :: "rat \<Rightarrow> int" where
  \<comment> \<open>the floor of the binary logarithm of a positive rational\<close>
  "ilog2 a = (let (p, q) = quotient_of a; e = bitlen p - bitlen q
              in if 2 powi e \<le> a then e else e - 1)"

definition round_half_even :: "rat \<Rightarrow> int" where
  "round_half_even y = (let f = \<lfloor>y\<rfloor>; d = y - of_int f
     in if d < 1 / 2 then f else if 1 / 2 < d then f + 1
        else if even f then f else f + 1)"

definition quantum :: "rat \<Rightarrow> rat" where
  \<comment> \<open>the distance between neighbouring doubles around a non-zero \<open>x\<close>\<close>
  "quantum x = 2 powi (max (ilog2 \<bar>x\<bar> - 52) (- 1074))"

definition nearest_double :: "rat \<Rightarrow> rat" where
  "nearest_double x = (if x = 0 then 0
     else of_int (round_half_even (x / quantum x)) * quantum x)"

definition overflow_threshold :: rat where
  "overflow_threshold = 2 ^ 1024 - 2 ^ 970"

definition to_double :: "rat \<Rightarrow> pyfloat" where
  "to_double x = (if overflow_threshold \<le> \<bar>x\<bar> then Infinity (x < 0)
                  else Finite (nearest_double x))"

definition float_of_int :: "int \<Rightarrow> pyerror + pyfloat" where
  \<comment> \<open>\<^verbatim>\<open>float(n)\<close>, also the conversion of the int operand of a mixed operation:
      OverflowError for an int too large for a double\<close>
  "float_of_int n = (case to_double (of_int n) of
       Infinity s \<Rightarrow> Inl OverflowError
     | f \<Rightarrow> Inr f)"

fun fmul :: "pyfloat \<Rightarrow> pyfloat \<Rightarrow> pyfloat" where
  "fmul NaN y = NaN"
| "fmul x NaN = NaN"
| "fmul (Infinity s) (Infinity t) = Infinity (s \<noteq> t)"
| "fmul (Infinity s) (Finite b) = (if b = 0 then NaN else Infinity (s \<noteq> (b < 0)))"
| "fmul (Finite a) (Infinity t) = (if a = 0 then NaN else Infinity ((a < 0) \<noteq> t))"
| "fmul (Finite a) (Finite b) = to_double (a * b)"

fun fsub :: "pyfloat \<Rightarrow> pyfloat \<Rightarrow> pyfloat" where
  "fsub NaN y = NaN"
| "fsub x NaN = NaN"
| "fsub (Infinity s) (Infinity t) = (if s = t then NaN else Infinity s)"
| "fsub (Infinity s) (Finite b) = Infinity s"
| "fsub (Finite a) (Infinity t) = Infinity (\<not> t)"
| "fsub (Finite a) (Finite b) = to_double (a - b)"

fun fdiv :: "pyfloat \<Rightarrow> pyfloat \<Rightarrow> pyerror + pyfloat" where
  "fdiv x (Finite b) =
     (if b = 0 then Inl ZeroDivisionError
      else Inr (case x of
          NaN \<Rightarrow> NaN
        | Infinity s \<Rightarrow> Infinity (s \<noteq> (b < 0))
        | Finite a \<Rightarrow> to_double (a / b)))"
| "fdiv x NaN = Inr NaN"
| "fdiv x (Infinity t) =
     Inr (case x of NaN \<Rightarrow> NaN | Infinity s \<Rightarrow> NaN | Finite a \<Rightarrow> Finite 0)"

fun flt :: "pyfloat \<Rightarrow> pyfloat \<Rightarrow> bool" where
  "flt NaN y = False"
| "flt x NaN = False"
| "flt (Infinity s) (Infinity t) = (s \<and> \<not> t)"
| "flt (Infinity s) (Finite b) = s"
| "flt (Finite a) (Infinity t) = (\<not> t)"
| "flt (Finite a) (Finite b) = (a < b)"

fun pyround :: "pyfloat \<Rightarrow> pyerror + int" where
  \<comment> \<open>\<^verbatim>\<open>round(x)\<close> with one argument: the nearest int, ties to the even one\<close>
  "pyround (Finite a) = Inr (round_half_even a)"
| "pyround (Infinity s) = Inl OverflowError"
| "pyround NaN = Inl ValueError"

definition int_times_float :: "int \<Rightarrow> pyfloat \<Rightarrow> pyerror + pyfloat" where
  \<comment> \<open>\<^verbatim>\<open>n * x\<close> for an int \<open>n\<close> and a float \<open>x\<close>\<close>
  "int_times_float n x = and_then (float_of_int n) (\<lambda>f. Inr (fmul f x))"

definition int_over_float :: "int \<Rightarrow> pyfloat \<Rightarrow> pyerror + pyfloat" where
  \<comment> \<open>\<^verbatim>\<open>n / x\<close> for an int \<open>n\<close> and a float \<open>x\<close>\<close>
  "int_over_float n x = and_then (float_of_int n) (\<lambda>f. fdiv f x)"

subsection \<open>Python strings\<close>

text \<open>
  A Python \<^verbatim>\<open>str\<close> is kept as its UTF-8 bytes, so that the three non-ASCII signs of
  the source's texts can be written down. \<^verbatim>\<open>startswith\<close> is \<^const>\<open>prefix\<close> and
  \<^verbatim>\<open>in\<close> on strings is \<^const>\<open>sublist\<close>; both read the same on code points and on
  their UTF-8 bytes. \<open>lower\<close>, \<open>strip\<close> and \<open>int_of_str\<close> follow Python on ASCII
  text, which is all that the source's own literals contain where these are applied.
\<close>

definition lower_char :: "char \<Rightarrow> char" where
  "lower_char c = (let n = (of_char c :: nat)
                   in if 65 \<le> n \<and> n \<le> 90 then char_of (n + 32) else c)"

definition lower :: "string \<Rightarrow> string" where
  "lower s = map lower_char s"

definition is_space :: "char \<Rightarrow> bool" where
  "is_space c = (let n = (of_char c :: nat)
                 in n = 32 \<or> (9 \<le> n \<and> n \<le> 13) \<or> (28 \<le> n \<and> n \<le> 31))"

definition strip :: "string \<Rightarrow> string" where
  "strip s = rev (dropWhile is_space (rev (dropWhile is_space s)))"

fun split_char :: "char \<Rightarrow> string \<Rightarrow> string list" where
  \<comment> \<open>\<^verbatim>\<open>s.split(c)\<close> for a separator of one character\<close>
  "split_char c [] = [[]]"
| "split_char c (x # xs) =
     (if x = c then [] # split_char c xs
      else (case split_char c xs of
              [] \<Rightarrow> [[x]]
            | p # ps \<Rightarrow> (x # p) # ps))"

fun split_once :: "char \<Rightarrow> string \<Rightarrow> string \<times> string" where
  \<comment> \<open>\<^verbatim>\<open>s.split(c, 1)\<close> of a string that contains \<open>c\<close>: the parts before and after the
      first \<open>c\<close>\<close>
  "split_once c [] = ([], [])"
| "split_once c (x # xs) =
     (if x = c then ([], xs)
      else (case split_once c xs of (l, r) \<Rightarrow> (x # l, r)))"

fun before_sep :: "string \<Rightarrow> string \<Rightarrow> string" where
  \<comment> \<open>\<^verbatim>\<open>s.split(sep)[0]\<close> for a non-empty separator\<close>
  "before_sep sep [] = []"
| "before_sep sep (x # xs) =
     (if prefix sep (x # xs) then [] else x # before_sep sep xs)"

definition is_digit :: "char \<Rightarrow> bool" where
  "is_digit c = (let n = (of_char c :: nat) in 48 \<le> n \<and> n \<le> 57)"

definition digit_val :: "char \<Rightarrow> int" where
  "digit_val c = int (of_char c :: nat) - 48"

fun parse_digits :: "string \<Rightarrow> bool \<Rightarrow> int \<Rightarrow> int option" where
  \<comment> \<open>decimal digits, single underscores allowed between two digits\<close>
  "parse_digits [] seen acc = (if seen then Some acc else None)"
| "parse_digits (c # cs) seen acc =
     (if is_digit c then parse_digits cs True (acc * 10 + digit_val c)
      else if c = CHR ''_'' \<and> seen \<and> cs \<noteq> [] \<and> is_digit (hd cs)
           then parse_digits cs True acc
      else None)"

definition int_of_str :: "string \<Rightarrow> int option" where
  \<comment> \<open>\<^verbatim>\<open>int(s)\<close>; \<open>None\<close> where Python raises ValueError\<close>
  "int_of_str s = (case strip s of
       [] \<Rightarrow> None
     | c # cs \<Rightarrow>
         if c = CHR ''-'' then map_option uminus (parse_digits cs False 0)
         else if c = CHR ''+'' then parse_digits cs False 0
         else parse_digits (c # cs) False 0)"

definition digit_char :: "int \<Rightarrow> char" where
  "digit_char d = char_of (48 + d)"

function str_digits :: "int \<Rightarrow> string" where
  \<comment> \<open>the decimal digits of an int that is not negative\<close>
  "str_digits n = (if n < 10 then [digit_char n]
                   else str_digits (n div 10) @ [digit_char (n mod 10)])"
  by pat_completeness auto
termination
  by (relation "measure nat") auto

declare str_digits.simps [simp del]

definition str_int :: "int \<Rightarrow> string" where
  \<comment> \<open>\<^verbatim>\<open>str(n)\<close>, which is what an f-string writes for an int\<close>
  "str_int n = (if n < 0 then CHR ''-'' # str_digits (- n) else str_digits n)"

definition format_f :: "nat \<Rightarrow> pyfloat \<Rightarrow> string" where
  \<comment> \<open>the f-string format \<^verbatim>\<open>{x:.kf}\<close> for \<open>k > 0\<close>: the exact value rounded to \<open>k\<close>
      decimals, ties to even\<close>
  "format_f k x = (case x of
       NaN \<Rightarrow> ''nan''
     | Infinity s \<Rightarrow> (if s then ''-inf'' else ''inf'')
     | Finite a \<Rightarrow>
         (let n = round_half_even (\<bar>a\<bar> * 10 ^ k);
              frac = str_digits (n mod 10 ^ k)
          in (if a < 0 then ''-'' else []) @ str_digits (n div 10 ^ k) @ ''.''
             @ replicate (k - length frac) CHR ''0'' @ frac))"

subsection \<open>The node\<close>

text \<open>
  \<^verbatim>\<open>_snap_dim(value, multiple)\<close>. All its callers pass ints. The floor division
  raises ZeroDivisionError for a zero \<open>multiple\<close>; Python's \<^verbatim>\<open>//\<close> on ints rounds
  towards minus infinity, as \<open>div\<close> on \<open>int\<close> does.
\<close>

definition snap_dim :: "int \<Rightarrow> int \<Rightarrow> pyerror + int" where
  "snap_dim v multiple =
     (if v \<le> 0 then Inr multiple
      else if multiple = 0 then Inl ZeroDivisionError
      else (let snapped = (v div multiple) * multiple
            in if snapped < multiple then Inr multiple else Inr snapped))"

definition profile_to_multiple :: "string \<Rightarrow> int \<times> string" where
  "profile_to_multiple model_profile =
     (if prefix ''multiple_of: 8'' model_profile then (8, ''SD / General (8)'')
      else if prefix ''multiple_of: 16'' model_profile then (16, ''WAN 2.2 / Strict (16)'')
      else if prefix ''multiple_of: 32'' model_profile then (32, ''Video / Advanced (32)'')
      else if prefix ''multiple_of: 64'' model_profile then (64, ''Legacy / Extra Safe (64)'')
      else (8, ''SD / General (8)''))"

text \<open>
  \<^verbatim>\<open>_scale_from_percentage_preset\<close>: a float literal denotes the double nearest to
  its decimal value.
\<close>

definition scale_from_percentage_preset :: "string \<Rightarrow> pyerror + (pyfloat \<times> pyfloat)" where
  "scale_from_percentage_preset scale_preset =
     (let reduction =
            (if prefix ''0%'' scale_preset then to_double 0
             else if prefix ''10%'' scale_preset then to_double 10
             else if prefix ''20%'' scale_preset then to_double 20
             else if prefix ''30%'' scale_preset then to_double 30
             else if prefix ''40%'' scale_preset then to_double 40
             else if prefix ''50%'' scale_preset then to_double 50
             else if prefix ''60%'' scale_preset then to_double 60
             else to_double 0)
      in and_then (fdiv reduction (to_double 100)) (\<lambda>fraction.
           (let scale = fsub (to_double 1) fraction
            in Inr (reduction,
                    if flt scale (to_double (1 / 10)) then to_double (1 / 10) else scale))))"

text \<open>
  \<^verbatim>\<open>_scale_and_snap\<close>, statement by statement. The source rounds \<open>raw_w\<close> and
  \<open>raw_h\<close> a second time for the returned tuple; the second rounding cannot fail where
  the first did not and gives the same ints, so the model returns the first.
\<close>

definition scale_and_snap ::
  "int \<Rightarrow> int \<Rightarrow> pyfloat \<Rightarrow> int \<Rightarrow> pyerror + (int \<times> int \<times> int \<times> int)" where
  "scale_and_snap w h scale multiple_of =
     and_then (int_times_float w scale) (\<lambda>raw_w.
     and_then (int_times_float h scale) (\<lambda>raw_h.
     and_then (pyround raw_w) (\<lambda>rounded_w.
     and_then (snap_dim rounded_w multiple_of) (\<lambda>snapped_w.
     and_then (pyround raw_h) (\<lambda>rounded_h.
     and_then (snap_dim rounded_h multiple_of) (\<lambda>snapped_h.
     and_then (if snapped_w > w then snap_dim w multiple_of else Inr snapped_w) (\<lambda>snapped_w.
     and_then (if snapped_h > h then snap_dim h multiple_of else Inr snapped_h) (\<lambda>snapped_h.
     Inr (snapped_w, snapped_h, rounded_w, rounded_h)))))))))"

text \<open>
  The dict literal of \<^verbatim>\<open>_get_common_resolution_table\<close>, entry by entry in the order of
  the source. Three keys are written twice; in a dict literal the later entry replaces
  the earlier one, so the lookup reads the entries from the last to the first.
\<close>

definition common_resolution_entries :: "((int \<times> int) \<times> string) list" where
  "common_resolution_entries =
    [((3840, 2160), ''2560x1440, 1920x1080, 1280x720, 960x540, 854x480''),
     ((3440, 1440), ''2560x1080, 2560x1440, 1920x810, 1600x720, 1280x540''),
     ((2560, 1440), ''1920x1080, 1600x900, 1280x720, 1024x576, 960x540''),
     ((2560, 1080), ''1920x810, 1920x800, 1600x900, 1280x720, 1024x576''),
     ((2048, 1152), ''1920x1080, 1600x900, 1280x720, 1024x576, 960x540''),
     ((1024, 1024), ''896x896, 768x768, 640x640''),
     ((1152, 896), ''1024x800, 960x768, 896x736''),
     ((896, 1152), ''768x992, 672x864, 576x736''),
     ((1216, 832), ''1152x768, 1024x704, 896x640''),
     ((832, 1216), ''768x1120, 704x1024, 640x928''),
     ((1344, 768), ''1216x704, 1152x672, 1024x576''),
     ((768, 1344), ''704x1216, 672x1152, 576x1024''),
     ((1536, 640), ''1344x576, 1216x512, 1024x448''),
     ((640, 1536), ''576x1344, 512x1216, 448x1024''),
     ((640, 960), ''576x864, 512x768, 480x720''),
     ((768, 1152), ''704x1056, 640x960, 576x864''),
     ((800, 1200), ''704x1056, 640x960, 576x864''),
     ((832, 1216), ''768x1120, 704x1024, 640x928''),
     ((1920, 1080), ''1600x900, 1536x864, 1280x720, 1024x576, 960x540''),
     ((1720, 720), ''1600x720, 1280x720, 1024x576, 960x540, 854x480''),
     ((1680, 1050), ''1600x900, 1440x900, 1280x800, 1280x720, 1024x640''),
     ((1600, 900), ''1440x810, 1280x720, 1024x576''),
     ((1536, 864), ''1440x810, 1280x720, 1024x576''),
     ((1366, 768), ''1280x720, 1152x648, 1024x576''),
     ((1360, 768), ''1280x720, 1152x648, 1024x576''),
     ((1280, 720), ''1152x648, 1024x576, 960x540''),
     ((1270, 720), ''1152x648, 1024x576, 960x540''),
     ((1024, 576), ''960x540, 854x480, 768x432''),
     ((960, 540), ''854x480, 848x480, 800x450''),
     ((854, 480), ''800x450, 768x432, 640x360''),
     ((848, 480), ''800x450, 768x432, 640x360''),
     ((800, 450), ''768x432, 720x405, 640x360''),
     ((720, 405), ''640x360, 576x324, 512x288''),
     ((640, 360), ''576x324, 512x288, 426x240''),
     ((426, 240), ''400x225, 384x216, 320x180''),
     ((2048, 2048), ''1536x1536, 1024x1024, 768x768''),
     ((1536, 1536), ''1280x1280, 1024x1024, 768x768''),
     ((1280, 1280), ''1024x1024, 896x896, 768x768''),
     ((1024, 1024), ''896x896, 768x768, 640x640''),
     ((896, 896), ''768x768, 704x704, 640x640''),
     ((768, 768), ''640x640, 576x576, 512x512''),
     ((640, 640), ''576x576, 512x512, 480x480''),
     ((512, 512), ''448x448, 384x384, 320x320''),
     ((1080, 1920), ''900x1600, 720x1280, 540x960''),
     ((720, 1280), ''640x1138, 540x960, 480x853''),
     ((640, 1136), ''576x1024, 540x960, 480x853''),
     ((1152, 896), ''1024x800, 960x768, 896x672'')]"

definition get_common_resolution_table :: "int \<times> int \<Rightarrow> string option" where
  "get_common_resolution_table = map_of (rev common_resolution_entries)"

definition parse_res :: "string \<Rightarrow> (int \<times> int) option" where
  \<comment> \<open>one turn of the loop of \<^verbatim>\<open>_parse_res_list\<close>; \<open>None\<close> where the loop continues
      without appending\<close>
  "parse_res part =
     (let p = strip part
      in if CHR ''x'' \<notin> set p then None
         else (case split_once CHR ''x'' p of (w_str, h_str) \<Rightarrow>
                (case int_of_str (strip w_str) of
                   None \<Rightarrow> None
                 | Some w \<Rightarrow>
                    (case int_of_str (strip h_str) of
                       None \<Rightarrow> None
                     | Some h \<Rightarrow> Some (w, h)))))"

definition parse_res_list :: "string \<Rightarrow> (int \<times> int) list" where
  "parse_res_list text = List.map_filter parse_res (split_char CHR '','' text)"

definition static_resolution_suggestions :: "int \<Rightarrow> int \<Rightarrow> int \<Rightarrow> pyerror + string" where
  "static_resolution_suggestions current_w current_h multiple_of =
     (let base = (case get_common_resolution_table (current_w, current_h) of
                    Some entry \<Rightarrow> ''suggested/common resolutions: '' @ entry
                  | None \<Rightarrow>
                      ''suggested/common resolutions: (no static entries for this input size)'')
      in and_then (scale_and_snap current_w current_h (to_double (1 / 2)) multiple_of)
           (\<lambda>(low_w, low_h, raw_w, raw_h).
              Inr (base @ '' | '' @ ''less common lower resolution (same aspect ratio): ''
                   @ str_int low_w @ ''x'' @ str_int low_h)))"

definition get_suggestion_target ::
  "int \<Rightarrow> int \<Rightarrow> int \<Rightarrow> string \<Rightarrow> pyerror + (int \<times> int \<times> int \<times> int)" where
  "get_suggestion_target w h multiple_of scale_preset =
     (let preset_lower = lower scale_preset
      in if sublist ''suggestion 4'' preset_lower \<or> sublist ''very low vram'' preset_lower
         then scale_and_snap w h (to_double (1 / 2)) multiple_of
         else
          (let suggestions = (case get_common_resolution_table (w, h) of
                                Some entry \<Rightarrow> parse_res_list entry
                              | None \<Rightarrow> []);
               idx = (if sublist ''suggestion 1'' preset_lower then Some (0 :: nat)
                      else if sublist ''suggestion 2'' preset_lower then Some 1
                      else if sublist ''suggestion 3'' preset_lower then Some 2
                      else None)
           in case (if suggestions = [] then None else idx) of
                Some i \<Rightarrow>
                  (case (if i < length suggestions then suggestions ! i else last suggestions)
                   of (target_w, target_h) \<Rightarrow>
                     and_then (snap_dim target_w multiple_of) (\<lambda>snapped_w.
                     and_then (snap_dim target_h multiple_of) (\<lambda>snapped_h.
                     and_then (if snapped_w > w then snap_dim w multiple_of
                               else Inr snapped_w) (\<lambda>snapped_w.
                     and_then (if snapped_h > h then snap_dim h multiple_of
                               else Inr snapped_h) (\<lambda>snapped_h.
                     Inr (snapped_w, snapped_h, target_w, target_h))))))
              | None \<Rightarrow>
                  scale_and_snap w h
                    (if sublist ''suggestion 1'' preset_lower then to_double (8 / 10)
                     else if sublist ''suggestion 2'' preset_lower then to_double (7 / 10)
                     else if sublist ''suggestion 3'' preset_lower then to_double (6 / 10)
                     else to_double (5 / 10))
                    multiple_of))"

text \<open>
  The image is a tensor of the layout batch, height, width, channels. Only its shape is
  read: a list of 64-bit signed sizes, as a tensor's shape is. An index beyond the shape
  raises IndexError.
\<close>

record image =
  shape :: "64 word list"

definition en_dash :: string where
  "en_dash = [CHR 0xE2, CHR 0x80, CHR 0x93]"

definition almost_equal_sign :: string where
  "almost_equal_sign = [CHR 0xE2, CHR 0x89, CHR 0x88]"

definition right_arrow :: string where
  "right_arrow = [CHR 0xE2, CHR 0x86, CHR 0x92]"

fun join :: "string \<Rightarrow> string list \<Rightarrow> string" where
  "join sep [] = []"
| "join sep [x] = x"
| "join sep (x # y # ys) = x @ sep @ join sep (y # ys)"

definition calc ::
  "'a image_scheme \<Rightarrow> string \<Rightarrow> string \<Rightarrow> pyerror + ('a image_scheme \<times> int \<times> int \<times> string)" where
  "calc img model_profile scale_preset =
     (case shape img of
        b # hh # ww # rest \<Rightarrow>
          (let h = sint hh; w = sint ww
           in if h \<le> 0 \<or> w \<le> 0
              then Inr (img, w, h, ''Invalid image size '' @ en_dash @ '' cannot calculate.'')
              else
               (case profile_to_multiple model_profile of (multiple_of, profile_label) \<Rightarrow>
                 and_then
                   (if prefix ''Resolution suggestion'' scale_preset
                    then
                      and_then (get_suggestion_target w h multiple_of scale_preset)
                        (\<lambda>(new_w, new_h, raw_w, raw_h).
                      and_then (if w > 0
                                then and_then (float_of_int w) (int_over_float new_w)
                                else Inr (to_double 1)) (\<lambda>scale.
                      Inr (new_w, new_h, raw_w, raw_h,
                           fmul (fsub (to_double 1) scale) (to_double 100), scale)))
                    else
                      and_then (scale_from_percentage_preset scale_preset)
                        (\<lambda>(reduction_percent, scale).
                      and_then (scale_and_snap w h scale multiple_of)
                        (\<lambda>(new_w, new_h, raw_w, raw_h).
                      Inr (new_w, new_h, raw_w, raw_h, reduction_percent, scale))))
                   (\<lambda>(new_w, new_h, raw_w, raw_h, reduction_percent, scale).
                   and_then (static_resolution_suggestions w h multiple_of)
                     (\<lambda>suggestions_info.
                   Inr (img, new_w, new_h,
                        join '' | ''
                          [''multiple_of: '' @ str_int multiple_of
                             @ '' ('' @ profile_label @ '')'',
                           ''scale_preset='' @ before_sep '' ('' scale_preset
                             @ '', reduction'' @ almost_equal_sign
                             @ format_f 1 reduction_percent
                             @ ''% (scale'' @ almost_equal_sign @ format_f 4 scale @ '')'',
                           ''input image: '' @ str_int w @ ''x'' @ str_int h,
                           ''result: raw '' @ str_int raw_w @ ''x'' @ str_int raw_h
                             @ '' -> snapped '' @ str_int new_w @ ''x'' @ str_int new_h,
                           suggestions_info])))))
      | _ \<Rightarrow> Inl IndexError)"

text \<open>The entries of the two dropdowns of \<^verbatim>\<open>INPUT_TYPES\<close> that the statements below name.\<close>

definition profile_8 :: string where
  "profile_8 = ''multiple_of: 8 (SD / General (8))''"

definition profile_16 :: string where
  "profile_16 = ''multiple_of: 16 (WAN 2.2 / Strict (16))''"

definition profile_32 :: string where
  "profile_32 = ''multiple_of: 32 (Video / Advanced (32))''"

definition profile_64 :: string where
  "profile_64 = ''multiple_of: 64 (Legacy / Extra Safe (64))''"

definition preset_30 :: string where
  "preset_30 = ''30% smaller (1920x1080'' @ right_arrow @ ''1344x756, 1280x720''
               @ right_arrow @ ''896x504)''"

definition suggestion_1 :: string where
  "suggestion_1 = ''Resolution suggestion 1 (highest from table)''"

definition suggestion_2 :: string where
  "suggestion_2 = ''Resolution suggestion 2 (lower from table)''"

definition suggestion_3 :: string where
  "suggestion_3 = ''Resolution suggestion 3 (lowest from table)''"

definition suggestion_4 :: string where
  "suggestion_4 = ''Resolution suggestion 4 (very low VRAM)''"

section \<open>Properties\<close>

subsection \<open>Sequencing\<close>

lemma and_then_simps:
  "and_then (Inr x) f = f x"
  "and_then (Inl e) f = Inl e"
  by (simp_all add: and_then_def)

subsection \<open>Rounding to a double stays close\<close>

lemma powi_nat: "0 \<le> e \<Longrightarrow> (2::rat) powi e = 2 ^ nat e"
  by (simp add: power_int_def)

lemma powi_pos: "0 < (2::rat) powi e"
  by (simp add: zero_less_power_int)

lemma ilog2_bounds:
  assumes "0 < a"
  shows "2 powi (ilog2 a) \<le> a" and "a < 2 powi (ilog2 a + 1)"
proof -
  obtain p q where pq: "quotient_of a = (p, q)" by (cases "quotient_of a")
  have q: "0 < q" using pq quotient_of_denom_pos by blast
  have a: "a = of_int p / of_int q" using pq quotient_of_div by blast
  have p: "0 < p" using assms q a by (simp add: zero_less_divide_iff)
  define bp where "bp = bitlen p"
  define bq where "bq = bitlen q"
  have bp1: "1 \<le> bp" using p bitlen_eq_zero_iff [of p] bitlen_nonneg [of p] by (simp add: bp_def)
  have bq1: "1 \<le> bq" using q bitlen_eq_zero_iff [of q] bitlen_nonneg [of q] by (simp add: bq_def)
  have plo: "(2::rat) powi (bp - 1) \<le> of_int p"
  proof -
    have "(2::int) ^ nat (bp - 1) \<le> p" using bitlen_bounds [OF p] by (simp add: bp_def)
    then have "(of_int ((2::int) ^ nat (bp - 1)) :: rat) \<le> of_int p" by (simp only: of_int_le_iff)
    then show ?thesis using bp1 by (simp add: powi_nat)
  qed
  have phi: "of_int p < (2::rat) powi bp"
  proof -
    have "p < (2::int) ^ nat bp" using bitlen_bounds [OF p] by (simp add: bp_def)
    then have "(of_int p :: rat) < of_int ((2::int) ^ nat bp)" by (simp only: of_int_less_iff)
    then show ?thesis using bp1 by (simp add: powi_nat)
  qed
  have qlo: "(2::rat) powi (bq - 1) \<le> of_int q"
  proof -
    have "(2::int) ^ nat (bq - 1) \<le> q" using bitlen_bounds [OF q] by (simp add: bq_def)
    then have "(of_int ((2::int) ^ nat (bq - 1)) :: rat) \<le> of_int q" by (simp only: of_int_le_iff)
    then show ?thesis using bq1 by (simp add: powi_nat)
  qed
  have qhi: "of_int q < (2::rat) powi bq"
  proof -
    have "q < (2::int) ^ nat bq" using bitlen_bounds [OF q] by (simp add: bq_def)
    then have "(of_int q :: rat) < of_int ((2::int) ^ nat bq)" by (simp only: of_int_less_iff)
    then show ?thesis using bq1 by (simp add: powi_nat)
  qed
  have qr: "(0::rat) < of_int q" using q by simp
  have lower: "(2::rat) powi (bp - bq - 1) \<le> a"
  proof -
    have "(2::rat) powi (bp - bq - 1) = 2 powi (bp - 1) / 2 powi bq"
      by (simp add: power_int_diff [symmetric] algebra_simps)
    also have "\<dots> \<le> of_int p / 2 powi bq"
      using plo powi_pos [of bq] by (simp add: divide_right_mono)
    also have "\<dots> \<le> of_int p / of_int q"
      using qhi qr p by (simp add: frac_le)
    finally show ?thesis by (simp add: a)
  qed
  have upper: "a < (2::rat) powi (bp - bq + 1)"
  proof -
    have "a = of_int p / of_int q" by (rule a)
    also have "\<dots> < 2 powi bp / of_int q"
      using phi qr by (simp add: divide_strict_right_mono)
    also have "\<dots> \<le> 2 powi bp / 2 powi (bq - 1)"
      using qlo powi_pos [of "bq - 1"] powi_pos [of bp] by (simp add: frac_le)
    also have "\<dots> = (2::rat) powi (bp - bq + 1)"
      by (simp add: power_int_diff [symmetric] algebra_simps)
    finally show ?thesis .
  qed
  have il: "ilog2 a = (if 2 powi (bp - bq) \<le> a then bp - bq else bp - bq - 1)"
    by (simp add: ilog2_def pq bp_def bq_def Let_def)
  show "2 powi (ilog2 a) \<le> a" using lower by (simp add: il)
  show "a < 2 powi (ilog2 a + 1)" using upper by (auto simp add: il not_le)
qed

lemma round_half_even_upper: "of_int (round_half_even y) \<le> y + 1 / 2"
proof -
  have "of_int \<lfloor>y\<rfloor> \<le> y" by simp
  then show ?thesis
    unfolding round_half_even_def Let_def by (simp split: if_splits; linarith)
qed

lemma round_half_even_lower: "y - 1 / 2 \<le> of_int (round_half_even y)"
proof -
  have "y < of_int \<lfloor>y\<rfloor> + 1" by linarith
  then show ?thesis
    unfolding round_half_even_def Let_def by (simp split: if_splits; linarith)
qed

lemma round_half_even_of_int: "round_half_even (of_int n) = n"
  by (simp add: round_half_even_def)

lemma quantum_pos: "0 < quantum x"
  by (simp add: quantum_def powi_pos)

lemma quantum_le:
  assumes "x \<noteq> 0"
  shows "quantum x \<le> max \<bar>x\<bar> 1"
proof (cases "ilog2 \<bar>x\<bar> - 52 \<le> - 1074")
  case False
  have "quantum x = 2 powi (ilog2 \<bar>x\<bar> - 52)"
    using False by (simp add: quantum_def max_def)
  also have "\<dots> \<le> 2 powi (ilog2 \<bar>x\<bar>)"
    by (rule power_int_increasing) simp_all
  also have "\<dots> \<le> \<bar>x\<bar>"
    using assms by (intro ilog2_bounds) simp
  finally show ?thesis by simp
next
  case True
  then have "quantum x = 2 powi (- 1074)"
    by (simp add: quantum_def max_def)
  also have "\<dots> \<le> (2::rat) powi 0"
    by (rule power_int_increasing) simp_all
  finally show ?thesis by simp
qed

lemma nearest_double_close: "\<bar>nearest_double x - x\<bar> \<le> max \<bar>x\<bar> 1 / 2"
proof (cases "x = 0")
  case True
  then show ?thesis by (simp add: nearest_double_def)
next
  case False
  define q where "q = quantum x"
  define k where "k = round_half_even (x / q)"
  have q: "0 < q" by (simp add: q_def quantum_pos)
  have nd: "nearest_double x = of_int k * q"
    using False by (simp add: nearest_double_def k_def q_def)
  have "of_int k \<le> x / q + 1 / 2" unfolding k_def by (rule round_half_even_upper)
  then have "of_int k * q \<le> (x / q + 1 / 2) * q"
    using q by (simp only: mult_le_cancel_right_pos)
  then have up: "of_int k * q \<le> x + q / 2"
    using q by (simp add: algebra_simps)
  have "x / q - 1 / 2 \<le> of_int k" unfolding k_def by (rule round_half_even_lower)
  then have "(x / q - 1 / 2) * q \<le> of_int k * q"
    using q by (simp only: mult_le_cancel_right_pos)
  then have lo: "x - q / 2 \<le> of_int k * q"
    using q by (simp add: algebra_simps)
  have "q \<le> max \<bar>x\<bar> 1" unfolding q_def using False by (rule quantum_le)
  then show ?thesis using up lo unfolding nd by linarith
qed

lemma overflow_threshold_large: "2 ^ 100 \<le> overflow_threshold"
  by (simp add: overflow_threshold_def)

lemma to_double_finite: "\<bar>x\<bar> < 2 ^ 100 \<Longrightarrow> to_double x = Finite (nearest_double x)"
  using overflow_threshold_large by (simp add: to_double_def)

text \<open>For evaluation: a value below \<open>2 ^ 100\<close> is rounded without a look at the threshold.\<close>

lemma to_double_small_first [code]:
  "to_double x = (if \<bar>x\<bar> < 2 ^ 100 then Finite (nearest_double x)
                  else if overflow_threshold \<le> \<bar>x\<bar> then Infinity (x < 0)
                  else Finite (nearest_double x))"
  using overflow_threshold_large by (simp add: to_double_def)

lemma nearest_double_abs_le: "\<bar>nearest_double x\<bar> \<le> \<bar>x\<bar> + max \<bar>x\<bar> 1 / 2"
  using nearest_double_close [of x] by linarith

lemma float_of_int_finite:
  assumes "\<bar>n\<bar> < 2 ^ 64"
  shows "float_of_int n = Inr (Finite (nearest_double (of_int n)))"
proof -
  have "(of_int \<bar>n\<bar> :: rat) < of_int (2 ^ 64)"
    using assms by (simp only: of_int_less_iff)
  then have "\<bar>of_int n :: rat\<bar> < 2 ^ 100" by simp
  then show ?thesis by (simp add: float_of_int_def to_double_finite)
qed

lemma nearest_double_of_int_bound:
  assumes "\<bar>n\<bar> < 2 ^ 64"
  shows "\<bar>nearest_double (of_int n)\<bar> \<le> 2 ^ 65"
proof -
  have "(of_int \<bar>n\<bar> :: rat) < of_int (2 ^ 64)"
    using assms by (simp only: of_int_less_iff)
  then have "\<bar>of_int n :: rat\<bar> < 2 ^ 64" by simp
  then show ?thesis using nearest_double_abs_le [of "of_int n"] by simp
qed

lemma nearest_double_of_int_pos:
  assumes "0 < n"
  shows "0 < nearest_double (of_int n)"
proof -
  define x :: rat where "x = of_int n"
  have "1 \<le> x" using assms by (simp add: x_def)
  then show ?thesis using nearest_double_close [of x] unfolding x_def [symmetric] by linarith
qed

lemma int_times_float_finite:
  assumes "\<bar>n\<bar> < 2 ^ 64" and "\<bar>r\<bar> \<le> 1"
  shows "\<exists>a. int_times_float n (Finite r) = Inr (Finite a)"
proof -
  define a where "a = nearest_double (of_int n)"
  have a: "\<bar>a\<bar> \<le> 2 ^ 65" unfolding a_def using assms(1) by (rule nearest_double_of_int_bound)
  have "\<bar>a * r\<bar> = \<bar>a\<bar> * \<bar>r\<bar>" by (rule abs_mult)
  also have "\<dots> \<le> \<bar>a\<bar> * 1" using assms(2) by (intro mult_left_mono) simp_all
  finally have "\<bar>a * r\<bar> < 2 ^ 100" using a by simp
  then have "fmul (Finite a) (Finite r) = Finite (nearest_double (a * r))"
    by (simp add: to_double_finite)
  then show ?thesis
    using float_of_int_finite [OF assms(1)]
    by (simp add: int_times_float_def and_then_def a_def)
qed

lemma scale_literals:
  "to_double (1 / 2) = Finite (1 / 2)"
  "to_double (8 / 10) = Finite (3602879701896397 / 4503599627370496)"
  "to_double (7 / 10) = Finite (3152519739159347 / 4503599627370496)"
  "to_double (6 / 10) = Finite (5404319552844595 / 9007199254740992)"
  "to_double (5 / 10) = Finite (1 / 2)"
  by code_simp+

lemma percentage_scales:
  "scale_from_percentage_preset ''0%'' = Inr (Finite 0, Finite 1)"
  "scale_from_percentage_preset ''10%'' = Inr (Finite 10, Finite (8106479329266893 / 9007199254740992))"
  "scale_from_percentage_preset ''20%'' = Inr (Finite 20, Finite (3602879701896397 / 4503599627370496))"
  "scale_from_percentage_preset ''30%'' = Inr (Finite 30, Finite (3152519739159347 / 4503599627370496))"
  "scale_from_percentage_preset ''40%'' = Inr (Finite 40, Finite (5404319552844595 / 9007199254740992))"
  "scale_from_percentage_preset ''50%'' = Inr (Finite 50, Finite (1 / 2))"
  "scale_from_percentage_preset ''60%'' = Inr (Finite 60, Finite (3602879701896397 / 9007199254740992))"
  by code_simp+

lemma percentage_preset_cases:
  "scale_from_percentage_preset p \<in>
     {scale_from_percentage_preset ''0%'', scale_from_percentage_preset ''10%'',
      scale_from_percentage_preset ''20%'', scale_from_percentage_preset ''30%'',
      scale_from_percentage_preset ''40%'', scale_from_percentage_preset ''50%'',
      scale_from_percentage_preset ''60%''}"
  by (simp add: scale_from_percentage_preset_def)

lemma percentage_preset_total:
  "\<exists>reduction r. scale_from_percentage_preset p = Inr (reduction, Finite r) \<and> \<bar>r\<bar> \<le> 1"
proof -
  have "scale_from_percentage_preset p \<in>
     {Inr (Finite 0, Finite 1),
      Inr (Finite 10, Finite (8106479329266893 / 9007199254740992)),
      Inr (Finite 20, Finite (3602879701896397 / 4503599627370496)),
      Inr (Finite 30, Finite (3152519739159347 / 4503599627370496)),
      Inr (Finite 40, Finite (5404319552844595 / 9007199254740992)),
      Inr (Finite 50, Finite (1 / 2)),
      Inr (Finite 60, Finite (3602879701896397 / 9007199254740992))}"
    using percentage_preset_cases [of p] unfolding percentage_scales .
  then show ?thesis
    by (elim insertE emptyE) (rule exI, rule exI, rule conjI, assumption, simp)+
qed

subsection \<open>Snapping\<close>

lemma snap_dim_value:
  assumes "0 < m"
  shows "snap_dim v m = Inr (if v < m then m else (v div m) * m)"
proof (cases "v \<le> 0")
  case True
  then show ?thesis using assms by (simp add: snap_dim_def)
next
  case pos: False
  show ?thesis
  proof (cases "v < m")
    case True
    then have "v div m = 0" using pos by (simp add: div_pos_pos_trivial)
    then show ?thesis using pos True assms by (simp add: snap_dim_def)
  next
    case False
    then have "0 < v div m"
      using assms by (simp add: pos_imp_zdiv_pos_iff)
    then have "m * 1 \<le> m * (v div m)"
      using assms by (intro mult_left_mono) simp_all
    then show ?thesis using pos False assms by (simp add: snap_dim_def mult.commute)
  qed
qed

lemma snap_dim_multiple:
  assumes "0 < m"
  shows "\<exists>r. snap_dim v m = Inr r \<and> m dvd r \<and> m \<le> r \<and> r \<le> max v m"
proof (cases "v < m")
  case True
  then show ?thesis using assms by (simp add: snap_dim_value)
next
  case False
  have "0 < v div m"
    using assms False by (simp add: pos_imp_zdiv_pos_iff)
  then have "m * 1 \<le> m * (v div m)"
    using assms by (intro mult_left_mono) simp_all
  moreover have "(v div m) * m \<le> v"
    using assms pos_mod_sign [of m v] div_mult_mod_eq [of v m] by linarith
  ultimately show ?thesis using assms False by (simp add: snap_dim_value mult.commute)
qed

text \<open>
  C3, as the code has it. \<^verbatim>\<open>_snap_dim\<close> returns a positive multiple of \<open>multiple\<close>
  for every multiple in 8, 16, 32, 64. From \<open>multiple\<close> on it is the greatest multiple
  not above the value; for every value below \<open>multiple\<close>, not only for the values up to
  zero, it is \<open>multiple\<close> itself, which is above the value.
\<close>

theorem snap_dim_floor_or_unit:
  assumes "m \<in> {8, 16, 32, 64}"
  shows "\<exists>r. snap_dim v m = Inr r \<and> 0 < r \<and> m dvd r
           \<and> (v < m \<longrightarrow> r = m)
           \<and> (m \<le> v \<longrightarrow> r \<le> v \<and> (\<forall>k. m dvd k \<and> k \<le> v \<longrightarrow> k \<le> r))"
proof -
  have m: "0 < m" using assms by auto
  obtain r where r: "snap_dim v m = Inr r" "m dvd r" "m \<le> r" "r \<le> max v m"
    using snap_dim_multiple [OF m] by blast
  have small: "v < m \<longrightarrow> r = m"
    using r(1) m by (auto simp add: snap_dim_value)
  have greatest: "k \<le> r" if large: "m \<le> v" and mult: "m dvd k" and below: "k \<le> v" for k
  proof -
    have rv: "r = (v div m) * m" using r(1) m large by (simp add: snap_dim_value)
    obtain j where j: "k = m * j" using mult by (auto simp: dvd_def)
    have "(m * j) div m \<le> v div m"
      using below m unfolding j by (intro zdiv_mono1) simp_all
    then have "j \<le> v div m" using m by simp
    then have "m * j \<le> m * (v div m)"
      using m by (intro mult_left_mono) simp_all
    then show ?thesis by (simp add: rv j mult.commute)
  qed
  have "m \<le> v \<longrightarrow> r \<le> v" using r(4) by auto
  then show ?thesis using r m small greatest by auto
qed

theorem snap_dim_floor_or_unit_witness:
  "(16 :: int) \<in> {8, 16, 32, 64} \<and> snap_dim 504 16 = Inr 496 \<and> snap_dim 5 16 = Inr 16"
  using snap_dim_floor_or_unit [of 16 504] snap_dim_floor_or_unit [of 16 5]
  by (simp add: snap_dim_def)

theorem snap_dim_exceeds_small_value: "snap_dim 5 8 = Inr 8 \<and> \<not> (8 :: int) \<le> 5"
  by (simp add: snap_dim_def)

text \<open>
  C10. For a positive \<open>multiple\<close>, \<^verbatim>\<open>_snap_dim\<close> returns a multiple of \<open>multiple\<close>
  that is at least \<open>multiple\<close>, and snapping that result again returns it unchanged.
\<close>

theorem snap_dim_idempotent:
  assumes "0 < m"
  shows "\<exists>r. snap_dim v m = Inr r \<and> m dvd r \<and> m \<le> r \<and> snap_dim r m = Inr r"
proof -
  obtain r where r: "snap_dim v m = Inr r" "m dvd r" "m \<le> r"
    using snap_dim_multiple [OF assms] by blast
  have "snap_dim r m = Inr r"
    using r(2,3) assms by (auto simp add: snap_dim_value)
  then show ?thesis using r by blast
qed

theorem snap_dim_idempotent_witness:
  "(0 :: int) < 16 \<and> snap_dim 504 16 = Inr 496 \<and> snap_dim 496 16 = Inr 496"
  using snap_dim_idempotent [of 16 504] by (simp add: snap_dim_def)

subsection \<open>Profiles\<close>

lemma profile_multiple_cases:
  "fst (profile_to_multiple s) \<in> {8, 16, 32, 64}"
  by (simp add: profile_to_multiple_def)

lemma profile_heads_exclusive:
  assumes "prefix a s" and "prefix b s" and "\<not> prefix a b" and "\<not> prefix b a"
  shows False
  using prefix_same_cases [OF assms(1,2)] assms(3,4) by blast

lemma profile_heads_apart:
  "\<not> (prefix ''multiple_of: 8'' s \<and> prefix ''multiple_of: 16'' s)"
  "\<not> (prefix ''multiple_of: 8'' s \<and> prefix ''multiple_of: 32'' s)"
  "\<not> (prefix ''multiple_of: 8'' s \<and> prefix ''multiple_of: 64'' s)"
  "\<not> (prefix ''multiple_of: 16'' s \<and> prefix ''multiple_of: 32'' s)"
  "\<not> (prefix ''multiple_of: 16'' s \<and> prefix ''multiple_of: 64'' s)"
  "\<not> (prefix ''multiple_of: 32'' s \<and> prefix ''multiple_of: 64'' s)"
  by (auto dest: profile_heads_exclusive)

text \<open>
  C9, as the code has it. \<^verbatim>\<open>_profile_to_multiple\<close> returns one of the four pairs for
  every string and has no failing branch. It matches by prefix, not against the four
  dropdown entries as whole strings: a string returns the pair of 16, of 32 or of 64
  exactly when it starts with \<^verbatim>\<open>multiple_of: 16\<close>, \<^verbatim>\<open>multiple_of: 32\<close> or
  \<^verbatim>\<open>multiple_of: 64\<close>, whether it is a dropdown entry or not, and every other string
  returns the pair of 8. The four dropdown entries return their own pairs.
\<close>

theorem profile_to_multiple_total:
  "profile_to_multiple s \<in>
     {(8, ''SD / General (8)''), (16, ''WAN 2.2 / Strict (16)''),
      (32, ''Video / Advanced (32)''), (64, ''Legacy / Extra Safe (64)'')}
   \<and> (profile_to_multiple s = (16, ''WAN 2.2 / Strict (16)'')
          \<longleftrightarrow> prefix ''multiple_of: 16'' s)
   \<and> (profile_to_multiple s = (32, ''Video / Advanced (32)'')
          \<longleftrightarrow> prefix ''multiple_of: 32'' s)
   \<and> (profile_to_multiple s = (64, ''Legacy / Extra Safe (64)'')
          \<longleftrightarrow> prefix ''multiple_of: 64'' s)
   \<and> (profile_to_multiple s = (8, ''SD / General (8)'')
          \<longleftrightarrow> \<not> (prefix ''multiple_of: 16'' s \<or> prefix ''multiple_of: 32'' s
                   \<or> prefix ''multiple_of: 64'' s))
   \<and> profile_to_multiple profile_8 = (8, ''SD / General (8)'')
   \<and> profile_to_multiple profile_16 = (16, ''WAN 2.2 / Strict (16)'')
   \<and> profile_to_multiple profile_32 = (32, ''Video / Advanced (32)'')
   \<and> profile_to_multiple profile_64 = (64, ''Legacy / Extra Safe (64)'')"
proof -
  have dropdown: "profile_to_multiple profile_8 = (8, ''SD / General (8)'')"
      "profile_to_multiple profile_16 = (16, ''WAN 2.2 / Strict (16)'')"
      "profile_to_multiple profile_32 = (32, ''Video / Advanced (32)'')"
      "profile_to_multiple profile_64 = (64, ''Legacy / Extra Safe (64)'')"
    by (simp_all add: profile_to_multiple_def profile_8_def profile_16_def profile_32_def
          profile_64_def)
  have by_head: "profile_to_multiple s \<in>
     {(8, ''SD / General (8)''), (16, ''WAN 2.2 / Strict (16)''),
      (32, ''Video / Advanced (32)''), (64, ''Legacy / Extra Safe (64)'')}
   \<and> (profile_to_multiple s = (16, ''WAN 2.2 / Strict (16)'')
          \<longleftrightarrow> prefix ''multiple_of: 16'' s)
   \<and> (profile_to_multiple s = (32, ''Video / Advanced (32)'')
          \<longleftrightarrow> prefix ''multiple_of: 32'' s)
   \<and> (profile_to_multiple s = (64, ''Legacy / Extra Safe (64)'')
          \<longleftrightarrow> prefix ''multiple_of: 64'' s)
   \<and> (profile_to_multiple s = (8, ''SD / General (8)'')
          \<longleftrightarrow> \<not> (prefix ''multiple_of: 16'' s \<or> prefix ''multiple_of: 32'' s
                   \<or> prefix ''multiple_of: 64'' s))"
    using profile_heads_apart [of s] by (auto simp add: profile_to_multiple_def)
  show ?thesis using by_head dropdown by (simp only: simp_thms)
qed

theorem profile_to_multiple_total_witness:
  "profile_to_multiple ''no such profile'' = (8, ''SD / General (8)'')
   \<and> profile_to_multiple ''multiple_of: 64'' = (64, ''Legacy / Extra Safe (64)'')"
  using profile_to_multiple_total [of "''no such profile''"]
    profile_to_multiple_total [of "''multiple_of: 64''"]
  by simp

theorem profile_to_multiple_matches_by_prefix:
  "profile_to_multiple ''multiple_of: 16 junk'' = (16, ''WAN 2.2 / Strict (16)'')
   \<and> ''multiple_of: 16 junk'' \<notin> {profile_8, profile_16, profile_32, profile_64}
   \<and> (16 :: int, ''WAN 2.2 / Strict (16)'') \<noteq> (8, ''SD / General (8)'')"
  by (simp add: profile_to_multiple_def profile_8_def profile_16_def profile_32_def
        profile_64_def)

subsection \<open>Scaling and snapping\<close>

lemma scale_and_snap_total:
  assumes m: "0 < m" and w: "\<bar>w\<bar> < 2 ^ 64" and h: "\<bar>h\<bar> < 2 ^ 64" and r: "\<bar>r\<bar> \<le> 1"
  shows "\<exists>nw nh rw rh. scale_and_snap w h (Finite r) m = Inr (nw, nh, rw, rh)
           \<and> m dvd nw \<and> m \<le> nw \<and> nw \<le> max w m
           \<and> m dvd nh \<and> m \<le> nh \<and> nh \<le> max h m"
proof -
  obtain a where a: "int_times_float w (Finite r) = Inr (Finite a)"
    using int_times_float_finite [OF w r] by blast
  obtain b where b: "int_times_float h (Finite r) = Inr (Finite b)"
    using int_times_float_finite [OF h r] by blast
  obtain sw where sw: "snap_dim (round_half_even a) m = Inr sw" "m dvd sw" "m \<le> sw"
    using snap_dim_multiple [OF m] by blast
  obtain sh where sh: "snap_dim (round_half_even b) m = Inr sh" "m dvd sh" "m \<le> sh"
    using snap_dim_multiple [OF m] by blast
  obtain cw where cw: "snap_dim w m = Inr cw" "m dvd cw" "m \<le> cw" "cw \<le> max w m"
    using snap_dim_multiple [OF m] by blast
  obtain ch where ch: "snap_dim h m = Inr ch" "m dvd ch" "m \<le> ch" "ch \<le> max h m"
    using snap_dim_multiple [OF m] by blast
  have "scale_and_snap w h (Finite r) m =
          Inr (if sw > w then cw else sw, if sh > h then ch else sh,
               round_half_even a, round_half_even b)"
    by (simp add: scale_and_snap_def and_then_def a b sw(1) sh(1) cw(1) ch(1))
  then show ?thesis
    using sw sh cw ch by auto
qed

lemma examples:
  "scale_and_snap 5 5 (to_double 1) 8 = Inr (8, 8, 5, 5)"
  "scale_and_snap 1280 720 (Finite (1 / 2)) 16 = Inr (640, 352, 640, 360)"
  "scale_and_snap 1920 1080 (to_double (1 / 2)) 8 = Inr (960, 536, 960, 540)"
  "scale_and_snap 1234 987 (to_double (8 / 10)) 8 = Inr (984, 784, 987, 790)"
  "scale_and_snap 1234 987 (to_double (7 / 10)) 8 = Inr (864, 688, 864, 691)"
  "scale_and_snap 1234 987 (to_double (6 / 10)) 8 = Inr (736, 592, 740, 592)"
  by code_simp+


text \<open>
  C1, as the code has it. For sizes from 1 to \<open>2 ^ 63 - 1\<close> (what a tensor's shape can
  hold), a finite scale above 0 and up to 1, and a multiple of 8, 16, 32 or 64,
  \<^verbatim>\<open>_scale_and_snap\<close> returns; on an axis that is at least one multiple long the
  returned size is not above the input, and on a shorter axis it is the multiple itself,
  hence above the input.
\<close>

theorem scale_and_snap_within_input_or_one_unit:
  assumes "0 < w" and "w < 2 ^ 63" and "0 < h" and "h < 2 ^ 63"
    and "0 < r" and "r \<le> 1" and "m \<in> {8, 16, 32, 64}"
  shows "\<exists>nw nh rw rh. scale_and_snap w h (Finite r) m = Inr (nw, nh, rw, rh)
           \<and> (m \<le> w \<longrightarrow> nw \<le> w) \<and> (w < m \<longrightarrow> nw = m)
           \<and> (m \<le> h \<longrightarrow> nh \<le> h) \<and> (h < m \<longrightarrow> nh = m)"
proof -
  have m: "0 < m" using assms(7) by auto
  have w: "\<bar>w\<bar> < 2 ^ 64" and h: "\<bar>h\<bar> < 2 ^ 64" using assms(1-4) by simp_all
  have r: "\<bar>r\<bar> \<le> 1" using assms(5,6) by simp
  obtain nw nh rw rh where t: "scale_and_snap w h (Finite r) m = Inr (nw, nh, rw, rh)"
      "m \<le> nw" "nw \<le> max w m" "m \<le> nh" "nh \<le> max h m"
    using scale_and_snap_total [OF m w h r] by blast
  have "(m \<le> w \<longrightarrow> nw \<le> w) \<and> (w < m \<longrightarrow> nw = m)" using t(2,3) by auto
  moreover have "(m \<le> h \<longrightarrow> nh \<le> h) \<and> (h < m \<longrightarrow> nh = m)" using t(4,5) by auto
  ultimately show ?thesis using t(1) by blast
qed

theorem scale_and_snap_within_input_or_one_unit_witness:
  "(0 :: int) < 1280 \<and> (1280 :: int) < 2 ^ 63 \<and> (0 :: int) < 720 \<and> (720 :: int) < 2 ^ 63
   \<and> (0 :: rat) < 1 / 2 \<and> (1 / 2 :: rat) \<le> 1 \<and> (16 :: int) \<in> {8, 16, 32, 64}
   \<and> scale_and_snap 1280 720 (Finite (1 / 2)) 16 = Inr (640, 352, 640, 360)"
  using scale_and_snap_within_input_or_one_unit [of 1280 720 "1 / 2" 16] examples(2)
  by simp

theorem scale_and_snap_above_short_input:
  "scale_and_snap 5 5 (to_double 1) 8 = Inr (8, 8, 5, 5) \<and> \<not> (8 :: int) \<le> 5"
  using examples(1) by simp

subsection \<open>The table of common resolutions\<close>

lemma table_miss:
  assumes "k \<notin> fst ` set common_resolution_entries"
  shows "get_common_resolution_table k = None"
  using assms by (simp add: get_common_resolution_table_def map_of_eq_None_iff)

lemma table_sizes:
  "list_all (\<lambda>(k, entry). 3 \<le> length (parse_res_list entry) \<and> length (parse_res_list entry) \<le> 5)
     common_resolution_entries"
  by code_simp

lemma table_hit:
  assumes "k \<in> fst ` set common_resolution_entries"
  shows "\<exists>entry. get_common_resolution_table k = Some entry
           \<and> 3 \<le> length (parse_res_list entry) \<and> length (parse_res_list entry) \<le> 5"
proof -
  have "get_common_resolution_table k \<noteq> None"
    using assms by (simp add: get_common_resolution_table_def map_of_eq_None_iff)
  then obtain entry where e: "get_common_resolution_table k = Some entry" by blast
  then have "(k, entry) \<in> set common_resolution_entries"
    unfolding get_common_resolution_table_def using map_of_SomeD [of "rev common_resolution_entries" k entry] by simp
  then show ?thesis using table_sizes e by (auto simp add: list_all_iff)
qed

lemma example_4k:
  "get_common_resolution_table (3840, 2160) = Some ''2560x1440, 1920x1080, 1280x720, 960x540, 854x480''"
  "parse_res_list ''2560x1440, 1920x1080, 1280x720, 960x540, 854x480''
     = [(2560, 1440), (1920, 1080), (1280, 720), (960, 540), (854, 480)]"
  "get_common_resolution_table (1152, 896) = Some ''1024x800, 960x768, 896x672''"
  by code_simp+

lemma static_miss:
  assumes "(w, h) \<notin> fst ` set common_resolution_entries"
  shows "static_resolution_suggestions w h m =
     and_then (scale_and_snap w h (to_double (1 / 2)) m)
       (\<lambda>(low_w, low_h, raw_w, raw_h).
          Inr (''suggested/common resolutions: (no static entries for this input size)''
               @ '' | '' @ ''less common lower resolution (same aspect ratio): ''
               @ str_int low_w @ ''x'' @ str_int low_h))"
  using table_miss [OF assms] by (simp add: static_resolution_suggestions_def)

lemma static_resolution_suggestions_total:
  assumes m: "0 < m" and w: "\<bar>w\<bar> < 2 ^ 64" and h: "\<bar>h\<bar> < 2 ^ 64"
  shows "\<exists>text. static_resolution_suggestions w h m = Inr text"
proof -
  obtain nw nh rw rh where "scale_and_snap w h (Finite (1 / 2)) m = Inr (nw, nh, rw, rh)"
    using scale_and_snap_total [OF m w h, of "1 / 2"] by auto
  then show ?thesis
    by (simp add: static_resolution_suggestions_def scale_literals and_then_def)
qed

text \<open>
  C8, as the code has it. Every key of the table has an entry that lists three to five
  resolutions, in the order written (a key written twice has its later entry). A width
  and height that are not a key have no entry: the lookup gives nothing, and the info text of
  \<^verbatim>\<open>_static_resolution_suggestions\<close> says that there are no static entries.
\<close>

theorem static_table_exact_lookup:
  "(k \<in> fst ` set common_resolution_entries \<longrightarrow>
      (\<exists>entry. get_common_resolution_table k = Some entry
         \<and> 3 \<le> length (parse_res_list entry) \<and> length (parse_res_list entry) \<le> 5))
   \<and> (k \<notin> fst ` set common_resolution_entries \<longrightarrow>
        get_common_resolution_table k = None
        \<and> static_resolution_suggestions (fst k) (snd k) m =
            and_then (scale_and_snap (fst k) (snd k) (to_double (1 / 2)) m)
              (\<lambda>(low_w, low_h, raw_w, raw_h).
                 Inr (''suggested/common resolutions: (no static entries for this input size)''
                      @ '' | '' @ ''less common lower resolution (same aspect ratio): ''
                      @ str_int low_w @ ''x'' @ str_int low_h)))"
  using table_hit [of k] table_miss [of k] static_miss [of "fst k" "snd k" m] by simp

theorem static_table_exact_lookup_witness:
  "(1152, 896) \<in> fst ` set common_resolution_entries
   \<and> get_common_resolution_table (1152, 896) = Some ''1024x800, 960x768, 896x672''
   \<and> (1234, 987) \<notin> fst ` set common_resolution_entries
   \<and> get_common_resolution_table (1234, 987) = None"
  using static_table_exact_lookup [of "(1152, 896)"] static_table_exact_lookup [of "(1234, 987)"]
    example_4k(3)
  by (simp add: common_resolution_entries_def)

theorem static_table_entry_of_five:
  "get_common_resolution_table (3840, 2160)
     = Some ''2560x1440, 1920x1080, 1280x720, 960x540, 854x480''
   \<and> parse_res_list ''2560x1440, 1920x1080, 1280x720, 960x540, 854x480''
     = [(2560, 1440), (1920, 1080), (1280, 720), (960, 540), (854, 480)]
   \<and> \<not> length [(2560 :: int, 1440 :: int), (1920, 1080), (1280, 720), (960, 540), (854, 480)] \<le> 3"
  using example_4k(1,2) by simp

subsection \<open>Suggestions\<close>

lemma fallback_scale_finite:
  "\<exists>r. (if a then to_double (8 / 10) else if b then to_double (7 / 10)
         else if c then to_double (6 / 10) else to_double (5 / 10)) = Finite r \<and> \<bar>r\<bar> \<le> 1"
proof -
  have unit: "\<exists>r. Finite x = Finite r \<and> \<bar>r\<bar> \<le> 1" if "\<bar>x\<bar> \<le> 1" for x :: rat
    using that by blast
  consider "a" | "\<not> a" "b" | "\<not> a" "\<not> b" "c" | "\<not> a" "\<not> b" "\<not> c" by blast
  then show ?thesis
  proof cases
    case 1
    then show ?thesis unfolding scale_literals by (simp only: if_True) (rule unit, simp)
  next
    case 2
    then show ?thesis unfolding scale_literals by (simp only: if_True if_False) (rule unit, simp)
  next
    case 3
    then show ?thesis unfolding scale_literals by (simp only: if_True if_False) (rule unit, simp)
  next
    case 4
    then show ?thesis unfolding scale_literals by (simp only: if_True if_False) (rule unit, simp)
  qed
qed

lemma get_suggestion_target_total:
  assumes m: "0 < m" and w: "\<bar>w\<bar> < 2 ^ 64" and h: "\<bar>h\<bar> < 2 ^ 64"
  shows "\<exists>nw nh rw rh. get_suggestion_target w h m p = Inr (nw, nh, rw, rh)
           \<and> m dvd nw \<and> m \<le> nw \<and> nw \<le> max w m
           \<and> m dvd nh \<and> m \<le> nh \<and> nh \<le> max h m"
proof -
  let ?goal = "\<lambda>res. \<exists>nw nh rw rh. res = Inr (nw, nh, rw, rh)
           \<and> m dvd nw \<and> m \<le> nw \<and> nw \<le> max w m
           \<and> m dvd nh \<and> m \<le> nh \<and> nh \<le> max h m"
  define pl where "pl = lower p"
  define sugg where "sugg = (case get_common_resolution_table (w, h) of
                                Some entry \<Rightarrow> parse_res_list entry
                              | None \<Rightarrow> [])"
  define idx where "idx = (if sublist ''suggestion 1'' pl then Some (0 :: nat)
                      else if sublist ''suggestion 2'' pl then Some 1
                      else if sublist ''suggestion 3'' pl then Some 2
                      else None)"
  define fallback where "fallback = (if sublist ''suggestion 1'' pl then to_double (8 / 10)
                     else if sublist ''suggestion 2'' pl then to_double (7 / 10)
                     else if sublist ''suggestion 3'' pl then to_double (6 / 10)
                     else to_double (5 / 10))"
  define tab where "tab = (\<lambda>(tw, th).
      and_then (snap_dim tw m) (\<lambda>snapped_w.
      and_then (snap_dim th m) (\<lambda>snapped_h.
      and_then (if snapped_w > w then snap_dim w m else Inr snapped_w) (\<lambda>snapped_w.
      and_then (if snapped_h > h then snap_dim h m else Inr snapped_h) (\<lambda>snapped_h.
      Inr (snapped_w, snapped_h, tw, th))))))"
  have unfolded: "get_suggestion_target w h m p =
      (if sublist ''suggestion 4'' pl \<or> sublist ''very low vram'' pl
       then scale_and_snap w h (to_double (1 / 2)) m
       else case (if sugg = [] then None else idx) of
              Some i \<Rightarrow> tab (if i < length sugg then sugg ! i else last sugg)
            | None \<Rightarrow> scale_and_snap w h fallback m)"
    unfolding get_suggestion_target_def Let_def pl_def sugg_def idx_def fallback_def tab_def ..
  have scaled: "?goal (scale_and_snap w h (Finite r) m)" if "\<bar>r\<bar> \<le> 1" for r
    using scale_and_snap_total [OF m w h that] .
  have half: "?goal (scale_and_snap w h (to_double (1 / 2)) m)"
    unfolding scale_literals by (rule scaled) simp
  obtain r where r: "fallback = Finite r" "\<bar>r\<bar> \<le> 1"
    unfolding fallback_def using fallback_scale_finite by blast
  have fb: "?goal (scale_and_snap w h fallback m)"
    unfolding r(1) using r(2) by (rule scaled)
  have table: "?goal (tab t)" for t
  proof -
    obtain tw th where t: "t = (tw, th)" by (cases t)
    obtain sw where sw: "snap_dim tw m = Inr sw" "m dvd sw" "m \<le> sw"
      using snap_dim_multiple [OF m] by blast
    obtain sh where sh: "snap_dim th m = Inr sh" "m dvd sh" "m \<le> sh"
      using snap_dim_multiple [OF m] by blast
    obtain cw where cw: "snap_dim w m = Inr cw" "m dvd cw" "m \<le> cw" "cw \<le> max w m"
      using snap_dim_multiple [OF m] by blast
    obtain ch where ch: "snap_dim h m = Inr ch" "m dvd ch" "m \<le> ch" "ch \<le> max h m"
      using snap_dim_multiple [OF m] by blast
    have "tab t = Inr (if sw > w then cw else sw, if sh > h then ch else sh, tw, th)"
      by (simp add: tab_def t and_then_def sw(1) sh(1) cw(1) ch(1))
    then show ?thesis using sw sh cw ch by auto
  qed
  show ?thesis
  proof (cases "sublist ''suggestion 4'' pl \<or> sublist ''very low vram'' pl")
    case True
    then have "get_suggestion_target w h m p = scale_and_snap w h (to_double (1 / 2)) m"
      unfolding unfolded by (simp only: if_True)
    then show ?thesis using half by (simp only:)
  next
    case False
    show ?thesis
    proof (cases "if sugg = [] then None else idx")
      case None
      then have "get_suggestion_target w h m p = scale_and_snap w h fallback m"
        unfolding unfolded using False by (simp only: if_False option.case)
      then show ?thesis using fb by (simp only:)
    next
      case (Some i)
      then have "get_suggestion_target w h m p =
                   tab (if i < length sugg then sugg ! i else last sugg)"
        unfolding unfolded using False by (simp only: if_False option.case)
      then show ?thesis using table by (simp only:)
    qed
  qed
qed

lemma rank_tests:
  "sublist ''suggestion 4'' (lower suggestion_4)"
  "\<not> sublist ''suggestion 4'' (lower suggestion_1)"
  "\<not> sublist ''very low vram'' (lower suggestion_1)"
  "sublist ''suggestion 1'' (lower suggestion_1)"
  "\<not> sublist ''suggestion 4'' (lower suggestion_2)"
  "\<not> sublist ''very low vram'' (lower suggestion_2)"
  "\<not> sublist ''suggestion 1'' (lower suggestion_2)"
  "sublist ''suggestion 2'' (lower suggestion_2)"
  "\<not> sublist ''suggestion 4'' (lower suggestion_3)"
  "\<not> sublist ''very low vram'' (lower suggestion_3)"
  "\<not> sublist ''suggestion 1'' (lower suggestion_3)"
  "\<not> sublist ''suggestion 2'' (lower suggestion_3)"
  "sublist ''suggestion 3'' (lower suggestion_3)"
  by code_simp+

lemma rank_4_half: "get_suggestion_target w h m suggestion_4 = scale_and_snap w h (to_double (1 / 2)) m"
  by (simp add: get_suggestion_target_def rank_tests)

lemma ranks_fallback:
  assumes "(w, h) \<notin> fst ` set common_resolution_entries"
  shows "get_suggestion_target w h m suggestion_1 = scale_and_snap w h (to_double (8 / 10)) m"
    and "get_suggestion_target w h m suggestion_2 = scale_and_snap w h (to_double (7 / 10)) m"
    and "get_suggestion_target w h m suggestion_3 = scale_and_snap w h (to_double (6 / 10)) m"
  using table_miss [OF assms] by (simp_all add: get_suggestion_target_def rank_tests)

text \<open>
  C6. With the preset of suggestion 4, \<^verbatim>\<open>_get_suggestion_target\<close> returns what
  \<^verbatim>\<open>_scale_and_snap\<close> returns for the scale 0.5, for every width, height and multiple,
  a key of the table or not; for sizes below \<open>2 ^ 63\<close> that is a 4-tuple.
\<close>

theorem suggestion_4_is_half_scale:
  assumes "0 < w" and "0 < h" and "m \<in> {8, 16, 32, 64}"
  shows "get_suggestion_target w h m suggestion_4 = scale_and_snap w h (to_double (1 / 2)) m
         \<and> (w < 2 ^ 63 \<and> h < 2 ^ 63 \<longrightarrow>
              (\<exists>nw nh rw rh. get_suggestion_target w h m suggestion_4 = Inr (nw, nh, rw, rh)))"
proof -
  have m: "0 < m" using assms(3) by auto
  have "\<exists>nw nh rw rh. get_suggestion_target w h m suggestion_4 = Inr (nw, nh, rw, rh)"
    if "w < 2 ^ 63 \<and> h < 2 ^ 63"
  proof -
    have "\<bar>w\<bar> < 2 ^ 64" and "\<bar>h\<bar> < 2 ^ 64" using assms(1,2) that by simp_all
    then show ?thesis using get_suggestion_target_total [OF m, of w h suggestion_4] by blast
  qed
  then show ?thesis using rank_4_half by blast
qed

theorem suggestion_4_is_half_scale_witness:
  "(0 :: int) < 1920 \<and> (0 :: int) < 1080 \<and> (8 :: int) \<in> {8, 16, 32, 64}
   \<and> (1920, 1080) \<in> fst ` set common_resolution_entries
   \<and> get_suggestion_target 1920 1080 8 suggestion_4 = Inr (960, 536, 960, 540)
   \<and> scale_and_snap 1920 1080 (to_double (1 / 2)) 8 = Inr (960, 536, 960, 540)"
  using suggestion_4_is_half_scale [of 1920 1080 8] examples(3)
  by (simp add: common_resolution_entries_def)

text \<open>
  C7. For a width and height that are not a key of the table, the presets of the
  suggestions 1, 2 and 3 make \<^verbatim>\<open>_get_suggestion_target\<close> return what
  \<^verbatim>\<open>_scale_and_snap\<close> returns for the scales 0.8, 0.7 and 0.6; for sizes below
  \<open>2 ^ 63\<close> each is a 4-tuple.
\<close>

theorem suggestions_fall_back_to_scales:
  assumes "(w, h) \<notin> fst ` set common_resolution_entries"
    and "0 < w" and "0 < h" and "m \<in> {8, 16, 32, 64}"
  shows "get_suggestion_target w h m suggestion_1 = scale_and_snap w h (to_double (8 / 10)) m
         \<and> get_suggestion_target w h m suggestion_2 = scale_and_snap w h (to_double (7 / 10)) m
         \<and> get_suggestion_target w h m suggestion_3 = scale_and_snap w h (to_double (6 / 10)) m
         \<and> (w < 2 ^ 63 \<and> h < 2 ^ 63 \<longrightarrow>
              (\<exists>t1 t2 t3. get_suggestion_target w h m suggestion_1 = Inr t1
                 \<and> get_suggestion_target w h m suggestion_2 = Inr t2
                 \<and> get_suggestion_target w h m suggestion_3 = Inr t3))"
proof -
  have m: "0 < m" using assms(4) by auto
  have "\<exists>t. get_suggestion_target w h m p = Inr t" if "w < 2 ^ 63 \<and> h < 2 ^ 63" for p
  proof -
    have "\<bar>w\<bar> < 2 ^ 64" and "\<bar>h\<bar> < 2 ^ 64" using assms(2,3) that by simp_all
    then show ?thesis using get_suggestion_target_total [OF m, of w h p] by blast
  qed
  then show ?thesis using ranks_fallback [OF assms(1)] by metis
qed

theorem suggestions_fall_back_to_scales_witness:
  "(1234, 987) \<notin> fst ` set common_resolution_entries
   \<and> (0 :: int) < 1234 \<and> (0 :: int) < 987 \<and> (8 :: int) \<in> {8, 16, 32, 64}
   \<and> get_suggestion_target 1234 987 8 suggestion_1 = Inr (984, 784, 987, 790)
   \<and> get_suggestion_target 1234 987 8 suggestion_2 = Inr (864, 688, 864, 691)
   \<and> get_suggestion_target 1234 987 8 suggestion_3 = Inr (736, 592, 740, 592)"
  using suggestions_fall_back_to_scales [of 1234 987 8] examples(4,5,6)
  by (simp add: common_resolution_entries_def)

subsection \<open>The entry point\<close>

lemma suggestion_scale_total:
  assumes w: "0 < w" "w < 2 ^ 63" and n: "\<bar>n\<bar> < 2 ^ 64"
  shows "\<exists>scale. and_then (float_of_int w) (int_over_float n) = Inr scale"
proof -
  have "\<bar>w\<bar> < 2 ^ 64" using w by simp
  then have fw: "float_of_int w = Inr (Finite (nearest_double (of_int w)))"
    by (rule float_of_int_finite)
  have pos: "nearest_double (of_int w) \<noteq> 0"
    using nearest_double_of_int_pos [OF w(1)] by simp
  have fn: "float_of_int n = Inr (Finite (nearest_double (of_int n)))"
    using n by (rule float_of_int_finite)
  show ?thesis
    by (simp add: fw fn pos int_over_float_def and_then_def)
qed

lemma calc_valid:
  assumes shape: "shape img = b # hh # ww # rest"
    and wpos: "0 < sint ww" and hpos: "0 < sint hh"
    and pm: "profile_to_multiple model_profile = (m, label)"
  shows "\<exists>nw nh info. calc img model_profile scale_preset = Inr (img, nw, nh, info)
           \<and> m dvd nw \<and> m \<le> nw \<and> m dvd nh \<and> m \<le> nh"
proof -
  define w where "w = sint ww"
  define h where "h = sint hh"
  have mset: "m \<in> {8, 16, 32, 64}"
    using profile_multiple_cases [of model_profile] by (simp add: pm)
  then have m: "0 < m" and m64: "m \<le> 64" by auto
  have w63: "w < 2 ^ 63" unfolding w_def using sint_lt [of ww] by simp
  have h63: "h < 2 ^ 63" unfolding h_def using sint_lt [of hh] by simp
  have w0: "0 < w" and h0: "0 < h" using wpos hpos by (simp_all add: w_def h_def)
  have w: "\<bar>w\<bar> < 2 ^ 64" and h: "\<bar>h\<bar> < 2 ^ 64" using w0 w63 h0 h63 by simp_all
  define plan where "plan =
     (if prefix ''Resolution suggestion'' scale_preset
      then
        and_then (get_suggestion_target w h m scale_preset)
          (\<lambda>(new_w, new_h, raw_w, raw_h).
        and_then (if w > 0
                  then and_then (float_of_int w) (int_over_float new_w)
                  else Inr (to_double 1)) (\<lambda>scale.
        Inr (new_w, new_h, raw_w, raw_h,
             fmul (fsub (to_double 1) scale) (to_double 100), scale)))
      else
        and_then (scale_from_percentage_preset scale_preset)
          (\<lambda>(reduction_percent, scale).
        and_then (scale_and_snap w h scale m)
          (\<lambda>(new_w, new_h, raw_w, raw_h).
        Inr (new_w, new_h, raw_w, raw_h, reduction_percent, scale))))"
  have valid: "\<not> (h \<le> 0 \<or> w \<le> 0)" using w0 h0 by simp
  have unfolded: "calc img model_profile scale_preset =
     and_then plan
       (\<lambda>(new_w, new_h, raw_w, raw_h, reduction_percent, scale).
       and_then (static_resolution_suggestions w h m)
         (\<lambda>suggestions_info.
       Inr (img, new_w, new_h,
            join '' | ''
              [''multiple_of: '' @ str_int m
                 @ '' ('' @ label @ '')'',
               ''scale_preset='' @ before_sep '' ('' scale_preset
                 @ '', reduction'' @ almost_equal_sign
                 @ format_f 1 reduction_percent
                 @ ''% (scale'' @ almost_equal_sign @ format_f 4 scale @ '')'',
               ''input image: '' @ str_int w @ ''x'' @ str_int h,
               ''result: raw '' @ str_int raw_w @ ''x'' @ str_int raw_h
                 @ '' -> snapped '' @ str_int new_w @ ''x'' @ str_int new_h,
               suggestions_info])))"
    using valid
    unfolding calc_def shape list.case Let_def pm prod.case w_def [symmetric] h_def [symmetric]
      plan_def
    by (simp only: if_False)
  have planned: "\<exists>nw nh rw rh reduction scale. plan = Inr (nw, nh, rw, rh, reduction, scale)
                   \<and> m dvd nw \<and> m \<le> nw \<and> m dvd nh \<and> m \<le> nh"
  proof (cases "prefix ''Resolution suggestion'' scale_preset")
    case True
    obtain nw nh rw rh where t: "get_suggestion_target w h m scale_preset = Inr (nw, nh, rw, rh)"
        "m dvd nw" "m \<le> nw" "nw \<le> max w m" "m dvd nh" "m \<le> nh"
      using get_suggestion_target_total [OF m w h, of scale_preset] by blast
    have "\<bar>nw\<bar> < 2 ^ 64" using t(3,4) m m64 w63 by simp
    then obtain scale where sc: "and_then (float_of_int w) (int_over_float nw) = Inr scale"
      using suggestion_scale_total [OF w0 w63] by blast
    have "plan = Inr (nw, nh, rw, rh, fmul (fsub (to_double 1) scale) (to_double 100), scale)"
      unfolding plan_def using True w0 by (simp add: t(1) sc and_then_simps)
    then show ?thesis using t by blast
  next
    case False
    obtain reduction r where p: "scale_from_percentage_preset scale_preset = Inr (reduction, Finite r)"
        "\<bar>r\<bar> \<le> 1"
      using percentage_preset_total by blast
    obtain nw nh rw rh where t: "scale_and_snap w h (Finite r) m = Inr (nw, nh, rw, rh)"
        "m dvd nw" "m \<le> nw" "m dvd nh" "m \<le> nh"
      using scale_and_snap_total [OF m w h p(2)] by blast
    have "plan = Inr (nw, nh, rw, rh, reduction, Finite r)"
      unfolding plan_def using False by (simp add: p(1) t(1) and_then_def)
    then show ?thesis using t by blast
  qed
  then obtain nw nh rw rh reduction scale where
      plan: "plan = Inr (nw, nh, rw, rh, reduction, scale)"
      and good: "m dvd nw" "m \<le> nw" "m dvd nh" "m \<le> nh"
    by blast
  obtain static_info where static_info: "static_resolution_suggestions w h m = Inr static_info"
    using static_resolution_suggestions_total [OF m w h] by blast
  show ?thesis
    unfolding unfolded plan static_info using good by (simp add: and_then_simps)
qed


text \<open>
  C5. For an image whose width or height is zero or less, \<^verbatim>\<open>calc\<close> raises nothing
  and returns the image, the width and the height as they came, with an info text that
  contains \<^verbatim>\<open>Invalid image size\<close>, whatever the profile and the preset.
\<close>

theorem calc_invalid_size:
  assumes "shape img = b # hh # ww # rest"
    and "sint ww \<le> 0 \<or> sint hh \<le> 0"
  shows "\<exists>info. calc img model_profile scale_preset = Inr (img, sint ww, sint hh, info)
           \<and> sublist ''Invalid image size'' info"
proof -
  have "calc img model_profile scale_preset =
          Inr (img, sint ww, sint hh,
               ''Invalid image size '' @ en_dash @ '' cannot calculate.'')"
    using assms by (auto simp add: calc_def Let_def)
  moreover have "sublist ''Invalid image size''
                   (''Invalid image size '' @ en_dash @ '' cannot calculate.'')"
    by (rule prefix_imp_sublist) simp
  ultimately show ?thesis by blast
qed

theorem calc_invalid_size_witness:
  "shape \<lparr>shape = [1, 0, 1280, 3]\<rparr> = [1, 0, 1280, 3]
   \<and> sint (0 :: 64 word) \<le> 0
   \<and> calc \<lparr>shape = [1, 0, 1280, 3]\<rparr> profile_16 preset_30 =
     Inr (\<lparr>shape = [1, 0, 1280, 3]\<rparr>, 1280, 0,
          ''Invalid image size '' @ en_dash @ '' cannot calculate.'')"
  using calc_invalid_size [of "\<lparr>shape = [1, 0, 1280, 3]\<rparr>" 1 0 1280 "[3]" profile_16 preset_30]
  by (simp add: calc_def)

text \<open>
  C4. For an image of positive width and height, whatever the profile and the preset,
  \<^verbatim>\<open>calc\<close> returns the image with a width and a height that are each a positive
  multiple of the granularity of the profile, hence at least one granularity unit; the
  granularity is one of 8, 16, 32 and 64.
\<close>

theorem calc_sizes_are_multiples:
  assumes "shape img = b # hh # ww # rest" and "0 < sint ww" and "0 < sint hh"
  shows "\<exists>nw nh info. calc img model_profile scale_preset = Inr (img, nw, nh, info)
           \<and> fst (profile_to_multiple model_profile) \<in> {8, 16, 32, 64}
           \<and> fst (profile_to_multiple model_profile) dvd nw \<and> 0 < nw
           \<and> fst (profile_to_multiple model_profile) \<le> nw
           \<and> fst (profile_to_multiple model_profile) dvd nh \<and> 0 < nh
           \<and> fst (profile_to_multiple model_profile) \<le> nh"
proof -
  define m where "m = fst (profile_to_multiple model_profile)"
  have pm: "profile_to_multiple model_profile = (m, snd (profile_to_multiple model_profile))"
    by (simp add: m_def)
  have mset: "m \<in> {8, 16, 32, 64}" unfolding m_def by (rule profile_multiple_cases)
  then have m: "0 < m" by auto
  obtain nw nh info where c: "calc img model_profile scale_preset = Inr (img, nw, nh, info)"
      "m dvd nw" "m \<le> nw" "m dvd nh" "m \<le> nh"
    using calc_valid [OF assms pm] by blast
  have "0 < nw" "0 < nh" using m c(3,5) by simp_all
  then show ?thesis using c mset unfolding m_def by blast
qed

theorem calc_sizes_are_multiples_witness:
  "shape \<lparr>shape = [1, 720, 1280, 3]\<rparr> = [1, 720, 1280, 3]
   \<and> 0 < sint (1280 :: 64 word) \<and> 0 < sint (720 :: 64 word)
   \<and> fst (profile_to_multiple profile_16) = 16
   \<and> (\<exists>nw nh info. calc \<lparr>shape = [1, 720, 1280, 3]\<rparr> profile_16 preset_30
                        = Inr (\<lparr>shape = [1, 720, 1280, 3]\<rparr>, nw, nh, info)
         \<and> (16 :: int) dvd nw \<and> 16 \<le> nw \<and> (16 :: int) dvd nh \<and> 16 \<le> nh)"
  using calc_sizes_are_multiples
    [of "\<lparr>shape = [1, 720, 1280, 3]\<rparr>" 1 720 1280 "[3]" profile_16 preset_30]
  by (simp add: profile_to_multiple_def profile_16_def) blast



end
